theory Spec2Isabelle
  imports Main "HOL-Library.Word"
begin

unbundle bit_operations_syntax

section \<open>Azure Key Vault master key (internal/sops/azkv/keysource.go)\<close>

text \<open>
  A shallow embedding of \<^verbatim>\<open>keysource.go\<close>. Go's \<^verbatim>\<open>string\<close> is a byte sequence and
  becomes \<^typ>\<open>string\<close>; \<^verbatim>\<open>[]byte\<close> becomes a list of 8-bit words; an \<^verbatim>\<open>error\<close>
  result is an \<open>error option\<close> (\<open>None\<close> is Go's \<^verbatim>\<open>nil\<close>). A method with a pointer
  receiver that assigns to a field returns the updated record. The packages the file
  imports (azidentity, azkeys/crypto, yaml) are parameters
  of the model: a record of functions that a caller instantiates with the real library
  or with a test double.
\<close>

subsection \<open>Bytes, strings and errors\<close>

type_synonym byte = "8 word"

definition bytes_of_string :: "string \<Rightarrow> byte list" where
  \<comment> \<open>the conversion \<^verbatim>\<open>[]byte(s)\<close>\<close>
  "bytes_of_string s = map (\<lambda>c. of_char c) s"

definition string_of_bytes :: "byte list \<Rightarrow> string" where
  \<comment> \<open>the conversion \<^verbatim>\<open>string(b)\<close>\<close>
  "string_of_bytes b = map (\<lambda>w. char_of (unat w)) b"

datatype error =
    External string               \<comment> \<open>an error value made by an imported package\<close>
  | NewError string               \<comment> \<open>\<^verbatim>\<open>fmt.Errorf(msg)\<close> with no wrapped error\<close>
  | Errorf string error           \<comment> \<open>\<^verbatim>\<open>fmt.Errorf(context + ": %w", err)\<close>\<close>

subsection \<open>The key record and the authentication config\<close>

text \<open>
  \<open>CreationDate\<close> is an instant counted in nanoseconds; \<open>token\<close> is the interface
  value \<^verbatim>\<open>azcore.TokenCredential\<close>, \<open>None\<close> while it is \<^verbatim>\<open>nil\<close>.
\<close>

record 'tok MasterKey =
  VaultURL :: string
  Name :: string
  Version :: string
  EncryptedKey :: string
  CreationDate :: int
  token :: "'tok option"

record AZConfig =
  AppID :: string
  Tenant :: string
  Password :: string

record AADConfig = AZConfig +
  TenantID :: string
  ClientID :: string
  ClientSecret :: string
  ClientCertificate :: string
  ClientCertificatePassword :: string
  ClientCertificateSendChain :: bool
  AuthorityHost :: string

subsection \<open>The azidentity package, as a parameter\<close>

text \<open>
  The constructors return Go's pair (credential, error); \<open>ParseCertificates\<close> returns the
  triple (certificates, private key, error).
\<close>

record ('tok, 'cert, 'pk) azidentity =
  AzurePublicCloud :: string
  NewClientSecretCredential ::
    "string \<Rightarrow> string \<Rightarrow> string \<Rightarrow> string \<Rightarrow> 'tok option \<times> error option"
  ParseCertificates ::
    "byte list \<Rightarrow> byte list \<Rightarrow> 'cert list \<times> 'pk option \<times> error option"
  NewClientCertificateCredential ::
    "string \<Rightarrow> string \<Rightarrow> 'cert list \<Rightarrow> 'pk option \<Rightarrow> bool \<Rightarrow> string
       \<Rightarrow> 'tok option \<times> error option"
  NewManagedIdentityCredential :: "string \<Rightarrow> 'tok option \<times> error option"

definition GetAuthorityHost :: "('tok, 'cert, 'pk) azidentity \<Rightarrow> AADConfig \<Rightarrow> string" where
  "GetAuthorityHost idp s =
     (if AuthorityHost s \<noteq> '''' then AuthorityHost s else AzurePublicCloud idp)"

definition invalid_data :: error where
  "invalid_data = NewError
     (''invalid data: requires a '' @ [CHR 0x27] @ ''clientId'' @ [CHR 0x27]
      @ '' field, a combination of '' @ [CHR 0x27] @ ''tenantId'' @ [CHR 0x27]
      @ '', '' @ [CHR 0x27] @ ''clientId'' @ [CHR 0x27]
      @ '' and '' @ [CHR 0x27] @ ''clientSecret'' @ [CHR 0x27]
      @ '', or '' @ [CHR 0x27] @ ''tenantId'' @ [CHR 0x27]
      @ '', '' @ [CHR 0x27] @ ''clientId'' @ [CHR 0x27]
      @ '' and '' @ [CHR 0x27] @ ''clientCertificate'' @ [CHR 0x27])"

text \<open>
  \<open>SetToken\<close>: both receiver and argument are pointers, so both are options. In the
  certificate branch the error of \<open>ParseCertificates\<close> is bound to \<^verbatim>\<open>err\<close> and the next
  statement assigns \<^verbatim>\<open>err\<close> again; what is returned is the second value.
\<close>

definition SetToken ::
  "('tok, 'cert, 'pk) azidentity \<Rightarrow> AADConfig option \<Rightarrow> 'tok MasterKey option
     \<Rightarrow> error option \<times> 'tok MasterKey option" where
  "SetToken idp sp keyp =
     (case (sp, keyp) of
        (Some s, Some key) \<Rightarrow>
          if TenantID s \<noteq> '''' \<and> ClientID s \<noteq> '''' \<and> ClientSecret s \<noteq> '''' then
            (case NewClientSecretCredential idp (TenantID s) (ClientID s) (ClientSecret s)
                    (GetAuthorityHost idp s) of
               (tok, err) \<Rightarrow> (err, Some (key\<lparr>token := tok\<rparr>)))
          else if TenantID s \<noteq> '''' \<and> ClientID s \<noteq> '''' \<and> ClientCertificate s \<noteq> '''' then
            (case ParseCertificates idp (bytes_of_string (ClientCertificate s))
                    (bytes_of_string (ClientCertificatePassword s)) of
               (certs, pk, err) \<Rightarrow>
                 (case NewClientCertificateCredential idp (TenantID s) (ClientID s) certs pk
                         (ClientCertificateSendChain s) (GetAuthorityHost idp s) of
                    (tok, err) \<Rightarrow> (err, Some (key\<lparr>token := tok\<rparr>))))
          else if Tenant s \<noteq> '''' \<and> AppID s \<noteq> '''' \<and> Password s \<noteq> '''' then
            (case NewClientSecretCredential idp (Tenant s) (AppID s) (Password s)
                    (GetAuthorityHost idp s) of
               (tok, err) \<Rightarrow> (err, Some (key\<lparr>token := tok\<rparr>)))
          else if ClientID s \<noteq> '''' then
            (case NewManagedIdentityCredential idp (ClientID s) of
               (tok, err) \<Rightarrow> (err, Some (key\<lparr>token := tok\<rparr>)))
          else (Some invalid_data, Some key)
      | _ \<Rightarrow> (None, keyp))"

subsection \<open>The azkeys/crypto package, as a parameter\<close>

text \<open>
  \<open>NewClient\<close> builds a client from the key reference and the credential;
  the two remote operations take the client, the algorithm and the bytes, and run in a
  world \<open>'w\<close> (the service and the network), which they may change.
\<close>

record ('tok, 'cl, 'w) azcrypto =
  NewClient :: "string \<Rightarrow> 'tok option \<Rightarrow> error + 'cl"
  ClientEncrypt :: "'cl \<Rightarrow> string \<Rightarrow> byte list \<Rightarrow> 'w \<Rightarrow> (error + byte list) \<times> 'w"
  ClientDecrypt :: "'cl \<Rightarrow> string \<Rightarrow> byte list \<Rightarrow> 'w \<Rightarrow> (error + byte list) \<times> 'w"

definition AlgorithmRSAOAEP256 :: string where
  "AlgorithmRSAOAEP256 = ''RSA-OAEP-256''"

definition ToString :: "'tok MasterKey \<Rightarrow> string" where
  "ToString key = VaultURL key @ ''/keys/'' @ Name key @ ''/'' @ Version key"

definition Encrypt ::
  "('tok, 'cl, 'w) azcrypto \<Rightarrow> 'tok MasterKey \<Rightarrow> byte list \<Rightarrow> 'w
     \<Rightarrow> error option \<times> 'tok MasterKey \<times> 'w" where
  "Encrypt az key dataKey w =
     (case NewClient az (ToString key) (token key) of
        Inl err \<Rightarrow> (Some (Errorf ''failed to construct client to encrypt data'' err), key, w)
      | Inr c \<Rightarrow>
          (case ClientEncrypt az c AlgorithmRSAOAEP256 dataKey w of
             (Inl err, w') \<Rightarrow> (Some (Errorf ''failed to encrypt data'' err), key, w')
           | (Inr result, w') \<Rightarrow>
               (None, key\<lparr>EncryptedKey := string_of_bytes result\<rparr>, w')))"

definition EncryptIfNeeded ::
  "('tok, 'cl, 'w) azcrypto \<Rightarrow> 'tok MasterKey \<Rightarrow> byte list \<Rightarrow> 'w
     \<Rightarrow> error option \<times> 'tok MasterKey \<times> 'w" where
  "EncryptIfNeeded az key dataKey w =
     (if EncryptedKey key = '''' then Encrypt az key dataKey w else (None, key, w))"

definition Decrypt ::
  "('tok, 'cl, 'w) azcrypto \<Rightarrow> 'tok MasterKey \<Rightarrow> 'w \<Rightarrow> (error + byte list) \<times> 'w" where
  "Decrypt az key w =
     (case NewClient az (ToString key) (token key) of
        Inl err \<Rightarrow> (Inl (Errorf ''failed to construct client to decrypt data'' err), w)
      | Inr c \<Rightarrow>
          (case ClientDecrypt az c AlgorithmRSAOAEP256 (bytes_of_string (EncryptedKey key)) w of
             (Inl err, w') \<Rightarrow> (Inl (Errorf ''failed to decrypt data'' err), w')
           | (Inr result, w') \<Rightarrow> (Inr result, w')))"

subsection \<open>Rotation\<close>

text \<open>
  \<^verbatim>\<open>time.Duration\<close> is a signed 64-bit count of nanoseconds; \<^verbatim>\<open>Time.Sub\<close> saturates at
  the least and greatest duration. The current time is a parameter.
\<close>

definition minDuration :: int where "minDuration = - (2 ^ 63)"
definition maxDuration :: int where "maxDuration = 2 ^ 63 - 1"

definition Sub :: "int \<Rightarrow> int \<Rightarrow> int" where
  "Sub t u = (if t - u < minDuration then minDuration
              else if maxDuration < t - u then maxDuration else t - u)"

definition Since :: "int \<Rightarrow> int \<Rightarrow> int" where
  "Since now t = Sub now t"

definition Hour :: int where "Hour = 60 * (60 * (1000 * (1000 * 1000)))"

definition NeedsRotation :: "int \<Rightarrow> 'tok MasterKey \<Rightarrow> bool" where
  "NeedsRotation now key = (Since now (CreationDate key) > Hour * 24 * 30 * 6)"

subsection \<open>Decoding the authentication file\<close>

text \<open>
  \<open>decode\<close> calls four library functions. They are modelled here from their
  documented behaviour on an in-memory reader:
  \<^item> \<^verbatim>\<open>utfbom.Skip\<close> looks at up to four leading bytes, tries the UTF-32 marks before
    the UTF-8 mark and the UTF-16 marks, and returns the bytes after the mark;
  \<^item> \<^verbatim>\<open>binary.Read\<close> into a slice of \<open>n\<close> 16-bit values reads exactly \<open>2 * n\<close> bytes
    and fails with \<^verbatim>\<open>io.EOF\<close> or \<^verbatim>\<open>io.ErrUnexpectedEOF\<close> when the reader is shorter;
  \<^item> \<^verbatim>\<open>utf16.Decode\<close> joins surrogate pairs and replaces a lone surrogate by U+FFFD;
  \<^item> the conversion \<^verbatim>\<open>string(runes)\<close> writes each rune in UTF-8, an invalid rune as
    U+FFFD.
  A rune is Go's \<^verbatim>\<open>int32\<close>; every rune that reaches a shift here is non-negative.
\<close>

type_synonym uint16 = "16 word"
type_synonym rune = "32 word"

datatype Encoding =
  Unknown | UTF8 | UTF16BigEndian | UTF16LittleEndian | UTF32BigEndian | UTF32LittleEndian

definition utfbom_Skip :: "byte list \<Rightarrow> byte list \<times> Encoding" where
  "utfbom_Skip b =
     (if take 4 b = [0x00, 0x00, 0xFE, 0xFF] then (drop 4 b, UTF32BigEndian)
      else if take 4 b = [0xFF, 0xFE, 0x00, 0x00] then (drop 4 b, UTF32LittleEndian)
      else if take 3 b = [0xEF, 0xBB, 0xBF] then (drop 3 b, UTF8)
      else if take 2 b = [0xFE, 0xFF] then (drop 2 b, UTF16BigEndian)
      else if take 2 b = [0xFF, 0xFE] then (drop 2 b, UTF16LittleEndian)
      else (b, Unknown))"

datatype ByteOrder = LittleEndian | BigEndian

fun Uint16 :: "ByteOrder \<Rightarrow> byte \<Rightarrow> byte \<Rightarrow> uint16" where
  "Uint16 LittleEndian b0 b1 = ucast b0 OR push_bit 8 (ucast b1)"
| "Uint16 BigEndian b0 b1 = ucast b1 OR push_bit 8 (ucast b0)"

fun uint16s :: "ByteOrder \<Rightarrow> byte list \<Rightarrow> uint16 list" where
  "uint16s order (b0 # b1 # bs) = Uint16 order b0 b1 # uint16s order bs"
| "uint16s order _ = []"

definition binary_Read :: "byte list \<Rightarrow> ByteOrder \<Rightarrow> nat \<Rightarrow> error + uint16 list" where
  "binary_Read reader order n =
     (if 2 * n \<le> length reader then Inr (uint16s order (take (2 * n) reader))
      else if reader = [] then Inl (External ''EOF'')
      else Inl (External ''unexpected EOF''))"

definition surr1 :: rune where "surr1 = 0xd800"
definition surr2 :: rune where "surr2 = 0xdc00"
definition surr3 :: rune where "surr3 = 0xe000"
definition surrSelf :: rune where "surrSelf = 0x10000"
definition replacementChar :: rune where "replacementChar = 0xFFFD"

definition DecodeRune :: "rune \<Rightarrow> rune \<Rightarrow> rune" where
  "DecodeRune r1 r2 =
     (if surr1 \<le> r1 \<and> r1 < surr2 \<and> surr2 \<le> r2 \<and> r2 < surr3
      then (push_bit 10 (r1 - surr1) OR (r2 - surr2)) + surrSelf
      else replacementChar)"

fun utf16_Decode :: "uint16 list \<Rightarrow> rune list" where
  "utf16_Decode [] = []"
| "utf16_Decode [r] =
     [if r < 0xd800 \<or> 0xe000 \<le> r then ucast r else replacementChar]"
| "utf16_Decode (r # r' # s) =
     (if r < 0xd800 \<or> 0xe000 \<le> r then ucast r # utf16_Decode (r' # s)
      else if 0xd800 \<le> r \<and> r < 0xdc00 \<and> 0xdc00 \<le> r' \<and> r' < 0xe000
        then DecodeRune (ucast r) (ucast r') # utf16_Decode s
      else replacementChar # utf16_Decode (r' # s))"

definition encoderune3 :: "rune \<Rightarrow> byte list" where
  "encoderune3 r =
     [0xE0 OR ucast (drop_bit 12 r),
      0x80 OR (ucast (drop_bit 6 r) AND 0x3F),
      0x80 OR (ucast r AND 0x3F)]"

definition encoderune :: "rune \<Rightarrow> byte list" where
  "encoderune r =
     (if r \<le> 0x7F then [ucast r]
      else if r \<le> 0x7FF then
        [0xC0 OR ucast (drop_bit 6 r), 0x80 OR (ucast r AND 0x3F)]
      else if 0x10FFFF < r \<or> (0xD800 \<le> r \<and> r \<le> 0xDFFF) then encoderune3 0xFFFD
      else if r \<le> 0xFFFF then encoderune3 r
      else
        [0xF0 OR ucast (drop_bit 18 r),
         0x80 OR (ucast (drop_bit 12 r) AND 0x3F),
         0x80 OR (ucast (drop_bit 6 r) AND 0x3F),
         0x80 OR (ucast r AND 0x3F)])"

definition bytes_of_runes :: "rune list \<Rightarrow> byte list" where
  \<comment> \<open>\<^verbatim>\<open>[]byte(string(runes))\<close>\<close>
  "bytes_of_runes rs = concat (map encoderune rs)"

text \<open>
  In both UTF-16 branches the input has at least the two bytes of the mark, so the
  length \<^verbatim>\<open>(len(b)/2)-1\<close> of the slice is not negative.
\<close>

definition decode :: "byte list \<Rightarrow> error + byte list" where
  "decode b =
     (case utfbom_Skip b of
        (reader, UTF16LittleEndian) \<Rightarrow>
          (case binary_Read reader LittleEndian (length b div 2 - 1) of
             Inl err \<Rightarrow> Inl err
           | Inr u16 \<Rightarrow> Inr (bytes_of_runes (utf16_Decode u16)))
      | (reader, UTF16BigEndian) \<Rightarrow>
          (case binary_Read reader BigEndian (length b div 2 - 1) of
             Inl err \<Rightarrow> Inl err
           | Inr u16 \<Rightarrow> Inr (bytes_of_runes (utf16_Decode u16)))
      | (reader, _) \<Rightarrow> Inr reader)"


subsection \<open>Unicode text and its encodings\<close>

text \<open>
  A text is a list of code points. A scalar value is a code point that is not a
  surrogate. The two encodings follow RFC 3629 (UTF-8) and RFC 2781 (UTF-16), written
  with division and remainder.
\<close>

definition scalar :: "nat \<Rightarrow> bool" where
  "scalar u = (u < 0xD800 \<or> (0xE000 \<le> u \<and> u < 0x110000))"

definition utf8_char :: "nat \<Rightarrow> byte list" where
  "utf8_char u =
     (if u < 0x80 then [of_nat u]
      else if u < 0x800 then [of_nat (0xC0 + u div 64), of_nat (0x80 + u mod 64)]
      else if u < 0x10000 then
        [of_nat (0xE0 + u div 4096), of_nat (0x80 + u div 64 mod 64), of_nat (0x80 + u mod 64)]
      else
        [of_nat (0xF0 + u div 262144), of_nat (0x80 + u div 4096 mod 64),
         of_nat (0x80 + u div 64 mod 64), of_nat (0x80 + u mod 64)])"

definition utf8 :: "nat list \<Rightarrow> byte list" where
  "utf8 text = concat (map utf8_char text)"

definition utf16_char :: "nat \<Rightarrow> uint16 list" where
  "utf16_char u =
     (if u < 0x10000 then [of_nat u]
      else [of_nat (0xD800 + (u - 0x10000) div 1024), of_nat (0xDC00 + (u - 0x10000) mod 1024)])"

definition le_bytes :: "uint16 \<Rightarrow> byte list" where
  "le_bytes w = [of_nat (unat w mod 256), of_nat (unat w div 256)]"

definition utf16le_bom :: "nat list \<Rightarrow> byte list" where
  "utf16le_bom text = 0xFF # 0xFE # concat (map le_bytes (concat (map utf16_char text)))"

subsection \<open>Test doubles\<close>

text \<open>
  A credential that records which constructor built it and from which arguments, as
  the concrete types of azidentity do.
\<close>

datatype cred =
    ClientSecretCredential string string string string
  | ClientCertificateCredential string string "byte list list" "byte list" bool string
  | ManagedIdentityCredential string

text \<open>
  An identity provider that builds such credentials. Its constructor for certificate
  credentials refuses an empty certificate list and a missing key, as the library does.
\<close>

definition fake_identity :: "(cred, byte list, byte list) azidentity" where
  "fake_identity = \<lparr>
     AzurePublicCloud = ''https://login.microsoftonline.com/'',
     NewClientSecretCredential = (\<lambda>t c s a. (Some (ClientSecretCredential t c s a), None)),
     ParseCertificates = (\<lambda>pem pw.
        if take 10 pem = bytes_of_string ''-----BEGIN'' then ([pem], Some pem, None)
        else ([], None, Some (External ''found no certificate''))),
     NewClientCertificateCredential = (\<lambda>t c certs pk chain a.
        case (certs, pk) of
          ([], _) \<Rightarrow> (None, Some (External ''at least one certificate is required''))
        | (_, None) \<Rightarrow> (None, Some (External ''key must be an RSA private key''))
        | (_, Some k) \<Rightarrow> (Some (ClientCertificateCredential t c certs k chain a), None)),
     NewManagedIdentityCredential = (\<lambda>i. (Some (ManagedIdentityCredential i), None)) \<rparr>"

definition no_config :: AADConfig where
  "no_config = \<lparr> AppID = '''', Tenant = '''', Password = '''', TenantID = '''', ClientID = '''',
     ClientSecret = '''', ClientCertificate = '''', ClientCertificatePassword = '''',
     ClientCertificateSendChain = False, AuthorityHost = '''' \<rparr>"

definition key0 :: "cred MasterKey" where
  "key0 = \<lparr> VaultURL = ''https://v.example'', Name = ''k1'', Version = ''v1'',
     EncryptedKey = '''', CreationDate = 0, token = None \<rparr>"

text \<open>
  A key vault whose world is the log of the remote operations it was asked for. The
  client constructor does not look at the credential; the service refuses a call that
  carries none. The ciphertext is a tag byte and the reversed plaintext.
\<close>

datatype remote_call =
    EncryptCall string "cred option" string "byte list"
  | DecryptCall string "cred option" string "byte list"

definition fake_vault :: "(cred, string \<times> cred option, remote_call list) azcrypto" where
  "fake_vault = \<lparr>
     NewClient = (\<lambda>keyURL credential. Inr (keyURL, credential)),
     ClientEncrypt = (\<lambda>(keyURL, credential) alg plain w.
        (if credential = None then Inl (External ''unauthorized'') else Inr (1 # rev plain),
         w @ [EncryptCall keyURL credential alg plain])),
     ClientDecrypt = (\<lambda>(keyURL, credential) alg cipher w.
        (if credential = None then Inl (External ''unauthorized'')
         else (case cipher of [] \<Rightarrow> Inl (External ''bad ciphertext'')
               | _ # r \<Rightarrow> Inr (rev r)),
         w @ [DecryptCall keyURL credential alg cipher])) \<rparr>"


text \<open>
  A key vault that counts its encrypt requests in the world and answers the first with
  an empty result, every later one with one byte.
\<close>

definition empty_first_vault :: "(cred, string \<times> cred option, nat) azcrypto" where
  "empty_first_vault = \<lparr>
     NewClient = (\<lambda>keyURL credential. Inr (keyURL, credential)),
     ClientEncrypt = (\<lambda>c alg plain w. (Inr (if w = 0 then [] else [7]), Suc w)),
     ClientDecrypt = (\<lambda>c alg cipher w. (Inr cipher, w)) \<rparr>"

section \<open>Properties\<close>

subsection \<open>Conversions\<close>

lemma byte_of_char_of: "of_char (char_of (unat (a::byte))) = a"
proof -
  have "unat a < 256" using unsigned_less [of a, where ?'a = nat] by simp
  then have n: "(of_char (char_of (unat a)) :: nat) = unat a"
    by (simp add: of_char_of)
  have "(of_char (char_of (unat a)) :: byte) = of_nat (of_char (char_of (unat a)))"
    by (simp only: of_nat_of_char)
  also have "\<dots> = of_nat (unat a)" by (simp only: n)
  also have "\<dots> = a" by simp
  finally show ?thesis .
qed

lemma bytes_of_string_of_bytes: "bytes_of_string (string_of_bytes b) = b"
  by (induction b) (simp_all add: bytes_of_string_def string_of_bytes_def byte_of_char_of)

lemma fake_vault_left_inverse:
  "ClientEncrypt fake_vault c alg d w = (Inr e, w')
     \<Longrightarrow> fst (ClientDecrypt fake_vault c alg e w'') = Inr d"
  by (cases c) (auto simp: fake_vault_def split: if_splits)

subsection \<open>Credential resolution\<close>

text \<open>
  C1. The claim: when no earlier branch matched, a managed-identity credential is built
  exactly when \<open>clientId\<close> is present and \<open>tenantId\<close> is absent. The code tests
  \<open>clientId\<close> alone: a config that has \<open>tenantId\<close> and \<open>clientId\<close> and nothing else
  gets a managed-identity credential for that client id.
\<close>

theorem SetToken_tenant_client_managed_identity:
  "SetToken fake_identity (Some (no_config\<lparr>TenantID := ''t'', ClientID := ''c''\<rparr>)) (Some key0)
     = (None, Some (key0\<lparr>token := Some (ManagedIdentityCredential ''c'')\<rparr>))"
  by (simp add: SetToken_def fake_identity_def no_config_def)

text \<open>
  The same for every identity provider: with \<open>clientId\<close> present, and neither a secret
  or certificate next to \<open>tenantId\<close> nor the three legacy fields, the result is that of
  the managed-identity constructor, whether or not \<open>tenantId\<close> is there.
\<close>

lemma SetToken_managed_identity:
  assumes "ClientID s \<noteq> ''''"
    and "TenantID s = '''' \<or> (ClientSecret s = '''' \<and> ClientCertificate s = '''')"
    and "Tenant s = '''' \<or> AppID s = '''' \<or> Password s = ''''"
  shows "SetToken idp (Some s) (Some key) =
     (case NewManagedIdentityCredential idp (ClientID s) of
        (tok, err) \<Rightarrow> (err, Some (key\<lparr>token := tok\<rparr>)))"
  using assms by (auto simp: SetToken_def)

text \<open>
  C3. The claim: in the certificate branch a failure of certificate parsing is returned to
  the caller and never replaced by the result of the next constructor. The code
  overwrites the parse error with the error of the certificate-credential constructor:
  on a certificate that does not parse, the caller gets the constructor's complaint about
  an empty certificate list, not the parse error.
\<close>

theorem SetToken_parse_error_overwritten:
  "ParseCertificates fake_identity (bytes_of_string ''garbage'') (bytes_of_string '''')
     = ([], None, Some (External ''found no certificate''))
   \<and> SetToken fake_identity
       (Some (no_config\<lparr>TenantID := ''t'', ClientID := ''c'', ClientCertificate := ''garbage''\<rparr>))
       (Some key0)
     = (Some (External ''at least one certificate is required''), Some (key0\<lparr>token := None\<rparr>))"
  by (simp add: SetToken_def fake_identity_def no_config_def bytes_of_string_def)

text \<open>
  For every identity provider the result of the certificate branch is the result of the
  certificate-credential constructor; the third component of what the parser returned
  does not occur in it.
\<close>

lemma SetToken_certificate_branch:
  assumes "TenantID s \<noteq> ''''" "ClientID s \<noteq> ''''" "ClientSecret s = ''''"
    "ClientCertificate s \<noteq> ''''"
  shows "SetToken idp (Some s) (Some key) =
     (case NewClientCertificateCredential idp (TenantID s) (ClientID s)
             (fst (ParseCertificates idp (bytes_of_string (ClientCertificate s))
                     (bytes_of_string (ClientCertificatePassword s))))
             (fst (snd (ParseCertificates idp (bytes_of_string (ClientCertificate s))
                     (bytes_of_string (ClientCertificatePassword s)))))
             (ClientCertificateSendChain s) (GetAuthorityHost idp s) of
        (tok, err) \<Rightarrow> (err, Some (key\<lparr>token := tok\<rparr>)))"
  using assms by (simp add: SetToken_def split: prod.splits)

text \<open>
  C5. The claim: resolution fails with the invalid-data error exactly when none of the
  four field combinations is present, the fourth being \<open>clientId\<close> without \<open>tenantId\<close>.
  The empty config does fail so; the config with only \<open>tenantId\<close> and \<open>clientId\<close>
  has none of the four combinations and yet resolves without an error.
\<close>

theorem SetToken_invalid_data_at_examples:
  "SetToken fake_identity (Some no_config) (Some key0) = (Some invalid_data, Some key0)
   \<and> fst (SetToken fake_identity
            (Some (no_config\<lparr>TenantID := ''t'', ClientID := ''c''\<rparr>)) (Some key0)) = None"
  by (simp add: SetToken_def fake_identity_def no_config_def)

text \<open>
  What decides the last branch in the code: the invalid-data error is returned as soon as
  \<open>clientId\<close> is empty and the three legacy fields are not all present.
\<close>

lemma SetToken_invalid_data:
  assumes "ClientID s = ''''" and "Tenant s = '''' \<or> AppID s = '''' \<or> Password s = ''''"
  shows "SetToken idp (Some s) (Some key) = (Some invalid_data, Some key)"
  using assms by (auto simp: SetToken_def)

text \<open>
  C6. When \<open>tenantId\<close>, \<open>clientId\<close> and \<open>clientSecret\<close> are all present, the result is
  that of the client-secret constructor on these three fields, whatever the legacy fields
  \<open>tenant\<close>, \<open>appId\<close> and \<open>password\<close> hold.
\<close>

theorem SetToken_client_secret_first:
  assumes "TenantID s \<noteq> ''''" "ClientID s \<noteq> ''''" "ClientSecret s \<noteq> ''''"
  shows "SetToken idp (Some s) (Some key) =
     (case NewClientSecretCredential idp (TenantID s) (ClientID s) (ClientSecret s)
             (GetAuthorityHost idp s) of
        (tok, err) \<Rightarrow> (err, Some (key\<lparr>token := tok\<rparr>)))"
  using assms by (simp add: SetToken_def)

theorem SetToken_client_secret_first_witness:
  "SetToken fake_identity
     (Some (no_config\<lparr>Tenant := ''lt'', AppID := ''la'', Password := ''lp'',
              TenantID := ''t'', ClientID := ''c'', ClientSecret := ''s''\<rparr>))
     (Some key0)
   = (None, Some (key0\<lparr>token :=
        Some (ClientSecretCredential ''t'' ''c'' ''s'' ''https://login.microsoftonline.com/'')\<rparr>))"
  using SetToken_client_secret_first
    [of "no_config\<lparr>Tenant := ''lt'', AppID := ''la'', Password := ''lp'',
              TenantID := ''t'', ClientID := ''c'', ClientSecret := ''s''\<rparr>" fake_identity key0]
  by (simp add: no_config_def fake_identity_def GetAuthorityHost_def)

text \<open>
  C10. With a nil config or a nil key record, resolution returns no error and leaves the
  record (if there is one) as it was: no constructor is consulted.
\<close>

theorem SetToken_nil:
  assumes "sp = None \<or> keyp = None"
  shows "SetToken idp sp keyp = (None, keyp)"
  using assms by (auto simp: SetToken_def split: option.splits)

theorem SetToken_nil_witness:
  "SetToken fake_identity None (Some key0) = (None, Some key0)
   \<and> SetToken fake_identity (Some no_config) None = (None, None)"
  using SetToken_nil [of None "Some key0" fake_identity]
    SetToken_nil [of "Some no_config" None fake_identity]
  by simp

subsection \<open>Encrypt and Decrypt\<close>

text \<open>
  C2. Let the remote decrypt operation be a left inverse of the remote encrypt operation:
  whatever a client encrypted under an algorithm, the same client decrypts under that
  algorithm to the bytes it was given, in any later world. Then after a successful
  \<open>Encrypt\<close> of a data key, \<open>Decrypt\<close> on the resulting record returns that data key.
  Both calls build their client from the same key reference and token, and both pass the
  algorithm RSA-OAEP-256.
\<close>

theorem Decrypt_Encrypt_roundtrip:
  assumes inv: "\<forall>c alg d w e w1 w2. ClientEncrypt az c alg d w = (Inr e, w1)
                  \<longrightarrow> fst (ClientDecrypt az c alg e w2) = Inr d"
    and enc: "Encrypt az key dataKey w = (None, key', w')"
  shows "fst (Decrypt az key' w'') = Inr dataKey
     \<and> ToString key' = ToString key \<and> token key' = token key
     \<and> (\<exists>c e. NewClient az (ToString key) (token key) = Inr c
            \<and> ClientEncrypt az c AlgorithmRSAOAEP256 dataKey w = (Inr e, w')
            \<and> EncryptedKey key' = string_of_bytes e
            \<and> Decrypt az key' w'' =
                (Inr dataKey, snd (ClientDecrypt az c AlgorithmRSAOAEP256 e w'')))"
proof -
  from enc obtain c where c: "NewClient az (ToString key) (token key) = Inr c"
    by (auto simp: Encrypt_def split: sum.splits)
  from enc c obtain e where e: "ClientEncrypt az c AlgorithmRSAOAEP256 dataKey w = (Inr e, w')"
    and k: "key' = key\<lparr>EncryptedKey := string_of_bytes e\<rparr>"
    by (auto simp: Encrypt_def split: sum.splits prod.splits)
  from inv e have d: "fst (ClientDecrypt az c AlgorithmRSAOAEP256 e w'') = Inr dataKey"
    by blast
  have ts: "ToString (key\<lparr>EncryptedKey := string_of_bytes e\<rparr>) = ToString key"
    by (simp add: ToString_def)
  have r: "ToString key' = ToString key" "token key' = token key"
    by (simp_all add: k ts)
  have "Decrypt az key' w'' = (Inr dataKey, snd (ClientDecrypt az c AlgorithmRSAOAEP256 e w''))"
    using d c
    by (cases "ClientDecrypt az c AlgorithmRSAOAEP256 e w''")
      (simp add: Decrypt_def k ts bytes_of_string_of_bytes)
  with c e k r show ?thesis by simp
qed

theorem Decrypt_Encrypt_roundtrip_witness:
  "Encrypt fake_vault (key0\<lparr>token := Some (ManagedIdentityCredential ''c'')\<rparr>) [1, 2, 3] []
     = (None,
        key0\<lparr>token := Some (ManagedIdentityCredential ''c''),
               EncryptedKey := string_of_bytes [1, 3, 2, 1]\<rparr>,
        [EncryptCall ''https://v.example/keys/k1/v1'' (Some (ManagedIdentityCredential ''c''))
           ''RSA-OAEP-256'' [1, 2, 3]])
   \<and> fst (Decrypt fake_vault
            (key0\<lparr>token := Some (ManagedIdentityCredential ''c''),
                   EncryptedKey := string_of_bytes [1, 3, 2, 1]\<rparr>) []) = Inr [1, 2, 3]"
proof -
  have e: "Encrypt fake_vault (key0\<lparr>token := Some (ManagedIdentityCredential ''c'')\<rparr>) [1, 2, 3] []
     = (None,
        key0\<lparr>token := Some (ManagedIdentityCredential ''c''),
               EncryptedKey := string_of_bytes [1, 3, 2, 1]\<rparr>,
        [EncryptCall ''https://v.example/keys/k1/v1'' (Some (ManagedIdentityCredential ''c''))
           ''RSA-OAEP-256'' [1, 2, 3]])"
    by (simp add: Encrypt_def fake_vault_def key0_def ToString_def AlgorithmRSAOAEP256_def)
  have i: "\<forall>c alg d w e w1 w2. ClientEncrypt fake_vault c alg d w = (Inr e, w1)
                  \<longrightarrow> fst (ClientDecrypt fake_vault c alg e w2) = Inr d"
    using fake_vault_left_inverse by blast
  from Decrypt_Encrypt_roundtrip [OF i e, of "[]"] e show ?thesis by simp
qed

text \<open>
  C4, as stated: with no caller token set, \<open>Encrypt\<close> and \<open>Decrypt\<close> fail before
  a client is built or a remote operation invoked. The code has no test of the token:
  on the key vault double, which refuses a call without credential only when it receives
  it, both functions build the client and send the request.
\<close>

theorem unset_token_reaches_remote_service:
  "token key0 = None
   \<and> Encrypt fake_vault key0 [1, 2, 3] []
       = (Some (Errorf ''failed to encrypt data'' (External ''unauthorized'')), key0,
          [EncryptCall ''https://v.example/keys/k1/v1'' None ''RSA-OAEP-256'' [1, 2, 3]])
   \<and> Decrypt fake_vault key0 []
       = (Inl (Errorf ''failed to decrypt data'' (External ''unauthorized'')),
          [DecryptCall ''https://v.example/keys/k1/v1'' None ''RSA-OAEP-256'' []])"
  by (simp add: Encrypt_def Decrypt_def fake_vault_def key0_def ToString_def
      AlgorithmRSAOAEP256_def bytes_of_string_def)

text \<open>
  C4, amended: with no caller token set, \<open>Encrypt\<close> and \<open>Decrypt\<close> hand the nil
  token to the client constructor and, when that returns a client, invoke the remote
  operation with it. They succeed exactly when the constructor and the remote operation
  both do, and the world they leave is the one the remote operation left.
\<close>

theorem unset_token_is_passed_on:
  assumes "token key = None"
  shows "((fst (Encrypt az key dataKey w) = None) =
           (\<exists>c e w'. NewClient az (ToString key) None = Inr c
              \<and> ClientEncrypt az c AlgorithmRSAOAEP256 dataKey w = (Inr e, w')))
    \<and> ((\<exists>r. fst (Decrypt az key w) = Inr r) =
           (\<exists>c r w'. NewClient az (ToString key) None = Inr c
              \<and> ClientDecrypt az c AlgorithmRSAOAEP256 (bytes_of_string (EncryptedKey key)) w
                  = (Inr r, w')))
    \<and> (\<forall>c. NewClient az (ToString key) None = Inr c \<longrightarrow>
           snd (snd (Encrypt az key dataKey w))
             = snd (ClientEncrypt az c AlgorithmRSAOAEP256 dataKey w)
           \<and> snd (Decrypt az key w)
             = snd (ClientDecrypt az c AlgorithmRSAOAEP256 (bytes_of_string (EncryptedKey key)) w))"
  using assms
  by (auto simp: Encrypt_def Decrypt_def split: sum.splits prod.splits)

theorem unset_token_is_passed_on_witness:
  "token key0 = None
   \<and> fst (Encrypt fake_vault key0 [1, 2, 3] []) \<noteq> None
   \<and> snd (snd (Encrypt fake_vault key0 [1, 2, 3] []))
       = snd (ClientEncrypt fake_vault (ToString key0, None) AlgorithmRSAOAEP256 [1, 2, 3] [])
   \<and> snd (Decrypt fake_vault key0 [])
       = snd (ClientDecrypt fake_vault (ToString key0, None) AlgorithmRSAOAEP256
                (bytes_of_string (EncryptedKey key0)) [])"
proof -
  have t: "token key0 = None" by (simp add: key0_def)
  have n: "NewClient fake_vault (ToString key0) None = Inr (ToString key0, None)"
    by (simp add: fake_vault_def)
  have f: "\<not> (\<exists>c e w'. NewClient fake_vault (ToString key0) None = Inr c
              \<and> ClientEncrypt fake_vault c AlgorithmRSAOAEP256 [1, 2, 3] [] = (Inr e, w'))"
    by (simp add: fake_vault_def)
  from unset_token_is_passed_on [OF t, of fake_vault "[1, 2, 3]" "[]"] f n t
  show ?thesis by simp
qed

text \<open>
  C7, as stated: calling \<open>EncryptIfNeeded\<close> twice in succession leaves the payload as the
  first successful call set it. The test that skips the remote call is on the payload
  being non-empty, not on a call having succeeded: when the first call succeeds with an
  empty result, the payload stays empty and the second call asks the service again and
  stores what it then returns.
\<close>

theorem EncryptIfNeeded_twice_changes_payload:
  "EncryptIfNeeded empty_first_vault key0 [1, 2, 3] 0
     = (None, key0\<lparr>EncryptedKey := ''''\<rparr>, 1)
   \<and> EncryptIfNeeded empty_first_vault (key0\<lparr>EncryptedKey := ''''\<rparr>) [1, 2, 3] 1
     = (None, key0\<lparr>EncryptedKey := string_of_bytes [7]\<rparr>, 2)
   \<and> EncryptedKey (key0\<lparr>EncryptedKey := string_of_bytes [7]\<rparr>)
     \<noteq> EncryptedKey (key0\<lparr>EncryptedKey := ''''\<rparr>)"
  by (simp add: EncryptIfNeeded_def Encrypt_def empty_first_vault_def key0_def
      string_of_bytes_def)

text \<open>
  C7, amended: on a record whose encrypted payload is not empty, \<open>EncryptIfNeeded\<close>
  returns no error and leaves the record and the world as they are: nothing remote is
  invoked. Hence after a call that succeeded and left a non-empty payload, a second call
  changes nothing.
\<close>

theorem EncryptIfNeeded_idempotent:
  "(EncryptedKey key \<noteq> '''' \<longrightarrow> EncryptIfNeeded az key dataKey w = (None, key, w))
   \<and> (EncryptIfNeeded az key dataKey w = (None, key', w') \<and> EncryptedKey key' \<noteq> ''''
        \<longrightarrow> EncryptIfNeeded az key' dataKey' w' = (None, key', w'))"
  by (simp add: EncryptIfNeeded_def)

theorem EncryptIfNeeded_idempotent_witness:
  "EncryptedKey (key0\<lparr>token := Some (ManagedIdentityCredential ''c''),
                      EncryptedKey := string_of_bytes [1, 3, 2, 1]\<rparr>) \<noteq> ''''
   \<and> EncryptIfNeeded fake_vault (key0\<lparr>token := Some (ManagedIdentityCredential ''c'')\<rparr>)
        [1, 2, 3] []
     = (None,
        key0\<lparr>token := Some (ManagedIdentityCredential ''c''),
               EncryptedKey := string_of_bytes [1, 3, 2, 1]\<rparr>,
        [EncryptCall ''https://v.example/keys/k1/v1'' (Some (ManagedIdentityCredential ''c''))
           ''RSA-OAEP-256'' [1, 2, 3]])
   \<and> EncryptIfNeeded fake_vault
        (key0\<lparr>token := Some (ManagedIdentityCredential ''c''),
               EncryptedKey := string_of_bytes [1, 3, 2, 1]\<rparr>) [9]
        [EncryptCall ''https://v.example/keys/k1/v1'' (Some (ManagedIdentityCredential ''c''))
           ''RSA-OAEP-256'' [1, 2, 3]]
     = (None,
        key0\<lparr>token := Some (ManagedIdentityCredential ''c''),
               EncryptedKey := string_of_bytes [1, 3, 2, 1]\<rparr>,
        [EncryptCall ''https://v.example/keys/k1/v1'' (Some (ManagedIdentityCredential ''c''))
           ''RSA-OAEP-256'' [1, 2, 3]])"
proof -
  have p: "EncryptedKey (key0\<lparr>token := Some (ManagedIdentityCredential ''c''),
                      EncryptedKey := string_of_bytes [1, 3, 2, 1]\<rparr>) \<noteq> ''''"
    by (simp add: string_of_bytes_def)
  have e: "EncryptIfNeeded fake_vault (key0\<lparr>token := Some (ManagedIdentityCredential ''c'')\<rparr>)
        [1, 2, 3] []
     = (None,
        key0\<lparr>token := Some (ManagedIdentityCredential ''c''),
               EncryptedKey := string_of_bytes [1, 3, 2, 1]\<rparr>,
        [EncryptCall ''https://v.example/keys/k1/v1'' (Some (ManagedIdentityCredential ''c''))
           ''RSA-OAEP-256'' [1, 2, 3]])"
    by (simp add: EncryptIfNeeded_def Encrypt_def fake_vault_def key0_def ToString_def
        AlgorithmRSAOAEP256_def)
  from EncryptIfNeeded_idempotent
    [of "key0\<lparr>token := Some (ManagedIdentityCredential ''c'')\<rparr>" fake_vault "[1, 2, 3]" "[]"
        "key0\<lparr>token := Some (ManagedIdentityCredential ''c''),
               EncryptedKey := string_of_bytes [1, 3, 2, 1]\<rparr>"
        "[EncryptCall ''https://v.example/keys/k1/v1'' (Some (ManagedIdentityCredential ''c''))
           ''RSA-OAEP-256'' [1, 2, 3]]" "[9]"] p e
  show ?thesis by simp
qed

subsection \<open>Rotation\<close>

text \<open>
  C8. \<open>NeedsRotation\<close> depends on the creation date and the current time only, and holds
  exactly when more than 180 days (six times thirty days) lie between them; so it is false
  at the moment of creation and true at every time later than 180 days after it.
\<close>

theorem NeedsRotation_iff:
  "NeedsRotation now key
     = (now - CreationDate key > 6 * (30 * (24 * (3600 * 1000000000))))
   \<and> \<not> NeedsRotation (CreationDate key) key
   \<and> (\<forall>d. d > 6 * (30 * (24 * (3600 * 1000000000)))
        \<longrightarrow> NeedsRotation (CreationDate key + d) key)"
  by (simp add: NeedsRotation_def Since_def Sub_def Hour_def minDuration_def maxDuration_def)

theorem NeedsRotation_iff_witness:
  "\<not> NeedsRotation 0 key0
   \<and> \<not> NeedsRotation 15552000000000000 key0
   \<and> NeedsRotation 15552000000000001 key0"
  using NeedsRotation_iff [of 0 key0] NeedsRotation_iff [of 15552000000000000 key0]
    NeedsRotation_iff [of 15552000000000001 key0]
  by (simp add: key0_def)

subsection \<open>Decoding: bit operations as arithmetic\<close>

text \<open>
  The decoder works with shifts, masks and bitwise OR on machine words, the encodings of
  the standards with division and remainder. The lemmas below carry each byte the
  library writes over to the natural numbers and back.
\<close>

lemma or_add_nat:
  assumes "b < 2 ^ n" shows "(a * 2 ^ n) OR b = a * 2 ^ n + (b::nat)"
proof -
  have b: "take_bit n b = b" using assms by (simp add: take_bit_nat_eq_self)
  have "a * 2 ^ n + b = push_bit n a + take_bit n b" by (simp add: push_bit_eq_mult b)
  also have "\<dots> = push_bit n a OR take_bit n b"
    by (rule disjunctive_add) (auto simp: bit_simps)
  finally show ?thesis by (simp add: push_bit_eq_mult b)
qed

lemma and_63: "(x::nat) AND 63 = x mod 64"
proof -
  have "x AND mask 6 = take_bit 6 x" by (simp add: take_bit_eq_mask)
  then show ?thesis by (simp add: take_bit_eq_mod mask_eq_exp_minus_1)
qed

lemma or_80: "k < 64 \<Longrightarrow> 128 OR k = 128 + (k::nat)"
  using or_add_nat [of k 6 2] by simp

lemma or_C0: "k < 64 \<Longrightarrow> 192 OR k = 192 + (k::nat)"
  using or_add_nat [of k 6 3] by simp

lemma or_E0: "k < 16 \<Longrightarrow> 224 OR k = 224 + (k::nat)"
  using or_add_nat [of k 4 14] by simp

lemma or_F0: "k < 8 \<Longrightarrow> 240 OR k = 240 + (k::nat)"
  using or_add_nat [of k 3 30] by simp

lemma byte_eqI: "unat (x::byte) = n \<Longrightarrow> x = of_nat n"
  by auto

lemmas to_nat = unsigned_or_eq unsigned_and_eq unsigned_ucast_eq unsigned_drop_bit_eq
  unsigned_of_nat and_63

lemmas to_div = drop_bit_eq_div take_bit_eq_mod

lemma unat_rune: "u < 0x110000 \<Longrightarrow> unat (of_nat u :: rune) = u"
  by (simp add: unsigned_of_nat take_bit_eq_mod)

lemma rune_le: "u < 0x110000 \<Longrightarrow> n < 0x110000 \<Longrightarrow> (of_nat u :: rune) \<le> of_nat n \<longleftrightarrow> u \<le> n"
  by (simp add: word_le_nat_alt unat_rune)

lemma rune_less: "u < 0x110000 \<Longrightarrow> n < 0x110000 \<Longrightarrow> (of_nat u :: rune) < of_nat n \<longleftrightarrow> u < n"
  by (simp add: word_less_nat_alt unat_rune)

lemma lead1: "u < 0x80 \<Longrightarrow> unat (ucast (of_nat u :: rune) :: byte) = u"
  by (simp add: to_nat to_div)

lemma lead2: "u < 0x800 \<Longrightarrow> unat (0xC0 OR ucast (drop_bit 6 (of_nat u :: rune)) :: byte) = 0xC0 + u div 64"
  by (simp add: to_nat) (simp add: to_div or_C0)

lemma lead3: "u < 0x10000 \<Longrightarrow> unat (0xE0 OR ucast (drop_bit 12 (of_nat u :: rune)) :: byte) = 0xE0 + u div 4096"
  by (simp add: to_nat) (simp add: to_div or_E0)

lemma lead4: "u < 0x110000 \<Longrightarrow> unat (0xF0 OR ucast (drop_bit 18 (of_nat u :: rune)) :: byte) = 0xF0 + u div 262144"
  by (simp add: to_nat) (simp add: to_div or_F0)

lemma cont0: "u < 0x110000 \<Longrightarrow> unat (0x80 OR (ucast (of_nat u :: rune) AND 0x3F) :: byte) = 0x80 + u mod 64"
proof -
  assume u: "u < 0x110000"
  have m: "u mod 256 mod 64 = u mod 64" by (rule mod_mod_cancel) simp
  have "unat (0x80 OR (ucast (of_nat u :: rune) AND 0x3F) :: byte) = 128 OR (u mod 256 mod 64)"
    using u by (simp add: to_nat to_div)
  then show ?thesis by (simp add: m or_80)
qed

lemma cont6: "u < 0x110000 \<Longrightarrow> unat (0x80 OR (ucast (drop_bit 6 (of_nat u :: rune)) AND 0x3F) :: byte) = 0x80 + u div 64 mod 64"
proof -
  assume u: "u < 0x110000"
  have m: "u div 64 mod 256 mod 64 = u div 64 mod 64" by (rule mod_mod_cancel) simp
  have "unat (0x80 OR (ucast (drop_bit 6 (of_nat u :: rune)) AND 0x3F) :: byte)
      = 128 OR (u div 64 mod 256 mod 64)"
    using u by (simp add: to_nat) (simp add: to_div)
  then show ?thesis by (simp add: m or_80)
qed

lemma cont12: "u < 0x110000 \<Longrightarrow> unat (0x80 OR (ucast (drop_bit 12 (of_nat u :: rune)) AND 0x3F) :: byte) = 0x80 + u div 4096 mod 64"
proof -
  assume u: "u < 0x110000"
  have m: "u div 4096 mod 256 mod 64 = u div 4096 mod 64" by (rule mod_mod_cancel) simp
  have "unat (0x80 OR (ucast (drop_bit 12 (of_nat u :: rune)) AND 0x3F) :: byte)
      = 128 OR (u div 4096 mod 256 mod 64)"
    using u by (simp add: to_nat) (simp add: to_div)
  then show ?thesis by (simp add: m or_80)
qed

lemma encoderune_utf8_char: "scalar u \<Longrightarrow> encoderune (of_nat u) = utf8_char u"
proof -
  assume s: "scalar u"
  then have u: "u < 0x110000" by (auto simp: scalar_def)
  have c: "(of_nat u :: rune) \<le> 0x7F \<longleftrightarrow> u \<le> 0x7F" "(of_nat u :: rune) \<le> 0x7FF \<longleftrightarrow> u \<le> 0x7FF"
    "(of_nat u :: rune) \<le> 0xFFFF \<longleftrightarrow> u \<le> 0xFFFF" "(of_nat u :: rune) \<le> 0xDFFF \<longleftrightarrow> u \<le> 0xDFFF"
    "(0xD800 :: rune) \<le> of_nat u  \<longleftrightarrow> 0xD800 \<le> u" "(0x10FFFF :: rune) < of_nat u  \<longleftrightarrow> 0x10FFFF < u" 
    using rune_le [OF u, of "0x7F"] rune_le [OF u, of "0x7FF"] rune_le [OF u, of "0xFFFF"]
      rune_le [OF u, of "0xDFFF"] rune_le [OF _ u, of "0xD800"] rune_less [OF _ u, of "0x10FFFF"]
    by simp_all
  consider "u < 0x80" | "0x80 \<le> u" "u < 0x800" | "0x800 \<le> u" "u < 0xD800 \<or> (0xE000 \<le> u \<and> u < 0x10000)" | "0x10000 \<le> u"
    using s unfolding scalar_def by fastforce
  then show ?thesis
  proof cases
    case 1
    then show ?thesis by (simp add: c encoderune_def utf8_char_def lead1 [THEN byte_eqI])
  next
    case 2
    then show ?thesis using u
      by (simp add: c encoderune_def utf8_char_def lead2 [THEN byte_eqI] cont0 [THEN byte_eqI])
  next
    case 3
    then have n: "\<not> u \<le> 0x7F" "\<not> u \<le> 0x7FF" "\<not> (0xD800 \<le> u \<and> u \<le> 0xDFFF)"
      "u \<le> 0xFFFF" "\<not> 0x10FFFF < u" "\<not> u < 0x80" "\<not> u < 0x800" "u < 0x10000"
      by auto
    show ?thesis using u
      by (simp add: c n encoderune_def encoderune3_def utf8_char_def
          lead3 [THEN byte_eqI] cont0 [THEN byte_eqI] cont6 [THEN byte_eqI])
  next
    case 4
    then show ?thesis using u
      by (simp add: c encoderune_def utf8_char_def 
          lead4 [THEN byte_eqI] cont0 [THEN byte_eqI] cont6 [THEN byte_eqI] cont12 [THEN byte_eqI])
  qed
qed

lemma Uint16_le_bytes:
  "Uint16 LittleEndian (of_nat (unat w mod 256)) (of_nat (unat w div 256)) = w"
proof -
  define n where "n = unat w"
  have n: "n < 65536" using unsigned_less [of w, where ?'a = nat] by (simp add: n_def)
  have lo: "unat (of_nat (n mod 256) :: byte) = n mod 256"
    by (simp add: unsigned_of_nat take_bit_eq_mod)
  have hi: "unat (of_nat (n div 256) :: byte) = n div 256"
    using n by (simp add: unsigned_of_nat take_bit_eq_mod)
  have m: "n div 256 mod 65536 = n div 256" "n div 256 * 256 mod 65536 = n div 256 * 256"
    using n by simp_all
  have "unat (ucast (of_nat (n mod 256) :: byte) OR push_bit 8 (ucast (of_nat (n div 256) :: byte)) :: uint16) =
      n mod 256 OR take_bit 16 (push_bit 8 (n div 256))"
    by (simp add: unsigned_or_eq unsigned_ucast_eq unsigned_push_bit_eq lo hi take_bit_eq_mod m)
  also have "take_bit 16 (push_bit 8 (n div 256)) = n div 256 * 2 ^ 8"
    by (simp add: push_bit_eq_mult take_bit_eq_mod m)
  also have "n mod 256 OR n div 256 * 2 ^ 8 = n div 256 * 2 ^ 8 + n mod 256"
    using or_add_nat [of "n mod 256" 8 "n div 256"] by (simp add: or.commute)
  also have "\<dots> = n" by simp
  finally have e: "unat (ucast (of_nat (n mod 256) :: byte) OR push_bit 8 (ucast (of_nat (n div 256) :: byte)) :: uint16) = unat w"
    by (simp only: n_def)
  have "(ucast (of_nat (n mod 256) :: byte) OR push_bit 8 (ucast (of_nat (n div 256) :: byte)) :: uint16) = w"
    using e by (rule word_unat_eq_iff [THEN iffD2])
  then show ?thesis by (simp only: n_def Uint16.simps)
qed

lemma word_of_unat: "unat (x::'a::len word) = n \<Longrightarrow> x = of_nat n"
  by auto

lemma uint16s_le_bytes: "uint16s LittleEndian (concat (map le_bytes us)) = us"
  by (induction us) (simp_all add: le_bytes_def Uint16_le_bytes del: Uint16.simps)

lemma utf16_Decode_normal:
  "r < 0xd800 \<or> 0xe000 \<le> r \<Longrightarrow> utf16_Decode (r # s) = ucast r # utf16_Decode s"
  by (cases s) auto

lemma utf16_Decode_pair:
  assumes "0xd800 \<le> r" "r < 0xdc00" "0xdc00 \<le> r'" "r' < 0xe000"
  shows "utf16_Decode (r # r' # s) = DecodeRune (ucast r) (ucast r') # utf16_Decode s"
proof -
  have "\<not> r < 0xd800" using assms(1) by simp
  moreover have "\<not> 0xe000 \<le> r"
    using assms(2) by (simp add: word_le_nat_alt word_less_nat_alt)
  ultimately show ?thesis using assms by simp
qed

lemma unat_u16: "n < 0x10000 \<Longrightarrow> unat (of_nat n :: uint16) = n"
  by (simp add: unsigned_of_nat take_bit_eq_mod)

lemma ucast_u16: "n < 0x10000 \<Longrightarrow> unat (ucast (of_nat n :: uint16) :: rune) = n"
  by (simp add: unsigned_ucast_eq unsigned_of_nat take_bit_eq_mod)

lemma utf16_bmp:
  assumes "scalar u" "u < 0x10000"
  shows "utf16_Decode (of_nat u # s) = of_nat u # utf16_Decode s"
proof -
  have "(of_nat u :: uint16) < 0xd800 \<or> 0xe000 \<le> (of_nat u :: uint16)"
    using assms by (auto simp: scalar_def word_le_nat_alt word_less_nat_alt unat_u16)
  moreover have "(ucast (of_nat u :: uint16) :: rune) = of_nat u"
    using ucast_u16 [OF assms(2)] by (rule word_of_unat)
  ultimately show ?thesis by (simp only: utf16_Decode_normal)
qed


lemma DecodeRune_pair:
  assumes a: "0xD800 \<le> a" "a < 0xDC00" and b: "0xDC00 \<le> b" "b < 0xE000"
  shows "DecodeRune (ucast (of_nat a :: uint16)) (ucast (of_nat b :: uint16))
           = of_nat ((a - 0xD800) * 2 ^ 10 + (b - 0xDC00) + 0x10000)"
proof -
  define h :: rune where "h = ucast (of_nat a :: uint16)"
  define l :: rune where "l = ucast (of_nat b :: uint16)"
  have h: "unat h = a" using a by (simp add: h_def ucast_u16)
  have l: "unat l = b" using b by (simp add: l_def ucast_u16)
  have c: "surr1 \<le> h" "h < surr2" "surr2 \<le> l" "l < surr3"
    using a b by (simp_all add: word_le_nat_alt word_less_nat_alt h l surr1_def surr2_def surr3_def)
  have hs: "unat (h - surr1) = a - 0xD800"
    using c(1) by (simp add: unat_sub h) (simp add: surr1_def)
  have ls: "unat (l - surr2) = b - 0xDC00"
    using c(3) by (simp add: unat_sub l) (simp add: surr2_def)
  have bd: "(a - 0xD800) * 2 ^ 10 < 2 ^ 32" using a by simp
  have "unat (push_bit 10 (h - surr1)) = take_bit 32 (push_bit 10 (unat (h - surr1)))"
    by (simp only: unsigned_push_bit_eq) simp
  also have "\<dots> = (a - 0xD800) * 2 ^ 10"
    using bd by (simp only: hs) (simp add: push_bit_eq_mult take_bit_eq_mod)
  finally have "unat (push_bit 10 (h - surr1)) = (a - 0xD800) * 2 ^ 10" .
  then have "unat (push_bit 10 (h - surr1) OR (l - surr2)) = (a - 0xD800) * 2 ^ 10 OR (b - 0xDC00)"
    by (simp add: unsigned_or_eq ls)
  also have "\<dots> = (a - 0xD800) * 2 ^ 10 + (b - 0xDC00)"
    by (rule or_add_nat) (use b in simp)
  finally have o: "unat (push_bit 10 (h - surr1) OR (l - surr2)) = (a - 0xD800) * 2 ^ 10 + (b - 0xDC00)" .
  have s: "unat surrSelf = 0x10000" by (simp add: surrSelf_def)
  have "unat ((push_bit 10 (h - surr1) OR (l - surr2)) + surrSelf)
      = ((a - 0xD800) * 2 ^ 10 + (b - 0xDC00) + 0x10000) mod 2 ^ 32"
    by (simp only: unat_word_ariths o s) simp
  also have "\<dots> = (a - 0xD800) * 2 ^ 10 + (b - 0xDC00) + 0x10000"
    using a b by simp
  finally have "(push_bit 10 (h - surr1) OR (l - surr2)) + surrSelf
      = of_nat ((a - 0xD800) * 2 ^ 10 + (b - 0xDC00) + 0x10000)"
    by (rule word_of_unat)
  with c show ?thesis by (simp only: DecodeRune_def h_def l_def) simp
qed

lemma utf16_supplementary:
  assumes "0x10000 \<le> u" "u < 0x110000"
  shows "utf16_Decode (utf16_char u @ s) = of_nat u # utf16_Decode s"
proof -
  define v where "v = u - 0x10000"
  define a where "a = 0xD800 + v div 1024"
  define b where "b = 0xDC00 + v mod 1024"
  have v: "v < 0x100000" "u = v + 0x10000" using assms by (simp_all add: v_def)
  have d: "v div 1024 < 1024" using v(1) by simp
  have a: "0xD800 \<le> a" "a < 0xDC00" using d by (simp_all add: a_def)
  have b: "0xDC00 \<le> b" "b < 0xE000" by (simp_all add: b_def)
  have c: "0xd800 \<le> (of_nat a :: uint16)" "(of_nat a :: uint16) < 0xdc00"
    "0xdc00 \<le> (of_nat b :: uint16)" "(of_nat b :: uint16) < 0xe000"
    using a b by (simp_all add: word_le_nat_alt word_less_nat_alt unat_u16)
  have e: "(a - 0xD800) * 2 ^ 10 + (b - 0xDC00) + 0x10000 = u"
    by (simp add: a_def b_def v(2))
  have "utf16_char u = [of_nat a, of_nat b]"
    using assms by (simp add: utf16_char_def v_def a_def b_def)
  then have "utf16_Decode (utf16_char u @ s)
      = DecodeRune (ucast (of_nat a :: uint16)) (ucast (of_nat b :: uint16)) # utf16_Decode s"
    using utf16_Decode_pair [OF c, of s] by simp
  then show ?thesis by (simp only: DecodeRune_pair [OF a b] e)
qed

lemma utf16_Decode_utf16_char:
  "\<forall>u \<in> set cs. scalar u \<Longrightarrow> utf16_Decode (concat (map utf16_char cs)) = map of_nat cs"
proof (induction cs)
  case Nil
  then show ?case by simp
next
  case (Cons u cs)
  then have s: "scalar u" and ih: "utf16_Decode (concat (map utf16_char cs)) = map of_nat cs"
    by simp_all
  show ?case
  proof (cases "u < 0x10000")
    case True
    then have "utf16_char u = [of_nat u]" by (simp add: utf16_char_def)
    then show ?thesis using utf16_bmp [OF s True] ih by simp
  next
    case False
    then have "0x10000 \<le> u" "u < 0x110000" using s by (auto simp: scalar_def)
    then show ?thesis using utf16_supplementary ih by simp
  qed
qed

lemma bytes_of_runes_utf8:
  "\<forall>u \<in> set cs. scalar u \<Longrightarrow> bytes_of_runes (map of_nat cs) = utf8 cs"
  by (induction cs) (simp_all add: bytes_of_runes_def utf8_def encoderune_utf8_char)











lemma le_bytes_nonzero:
  assumes "w \<noteq> 0"
  shows "\<exists>lo hi. le_bytes w = [lo, hi] \<and> [lo, hi] \<noteq> [0, 0]"
proof -
  have "Uint16 LittleEndian (of_nat (unat w mod 256)) (of_nat (unat w div 256)) = w"
    by (rule Uint16_le_bytes)
  moreover have "Uint16 LittleEndian 0 0 = 0" by simp
  ultimately have "[of_nat (unat w mod 256), of_nat (unat w div 256)] \<noteq> [0, 0 :: byte]"
    using assms by (metis list.inject)
  then show ?thesis by (simp add: le_bytes_def)
qed

lemma u16_nonzero: "0 < n \<Longrightarrow> n < 0x10000 \<Longrightarrow> (of_nat n :: uint16) \<noteq> 0"
proof
  assume n: "0 < n" "n < 0x10000" and z: "(of_nat n :: uint16) = 0"
  have "unat (of_nat n :: uint16) = n" using n(2) by (rule unat_u16)
  then have "n = 0" by (simp only: z) simp
  with n(1) show False by simp
qed

lemma utf16_char_first:
  assumes "scalar u" "u \<noteq> 0"
  shows "\<exists>w ws. utf16_char u = w # ws \<and> w \<noteq> 0"
proof (cases "u < 0x10000")
  case True
  then have "utf16_char u = [of_nat u]" by (simp add: utf16_char_def)
  moreover have "(of_nat u :: uint16) \<noteq> 0" using assms(2) True by (intro u16_nonzero) simp_all
  ultimately show ?thesis by simp
next
  case False
  define a where "a = 0xD800 + (u - 0x10000) div 1024"
  have "u < 0x110000" using assms(1) by (auto simp: scalar_def)
  then have "(u - 0x10000) div 1024 < 1024" by simp
  then have a: "0 < a" "a < 0x10000" by (simp_all add: a_def)
  have "utf16_char u = [of_nat a, of_nat (0xDC00 + (u - 0x10000) mod 1024)]"
    using False by (simp add: utf16_char_def a_def)
  moreover have "(of_nat a :: uint16) \<noteq> 0" using a by (rule u16_nonzero)
  ultimately show ?thesis by simp
qed

lemma length_le_bytes: "length (concat (map le_bytes us)) = 2 * length us"
  by (induction us) (simp_all add: le_bytes_def)

lemma utfbom_Skip_utf16le:
  assumes "\<forall>u \<in> set cs. scalar u" "cs \<noteq> [] \<longrightarrow> hd cs \<noteq> 0"
  shows "utfbom_Skip (utf16le_bom cs)
    = (concat (map le_bytes (concat (map utf16_char cs))), UTF16LittleEndian)"
proof -
  define r where "r = concat (map le_bytes (concat (map utf16_char cs)))"
  have b: "utf16le_bom cs = 0xFF # 0xFE # r" by (simp add: utf16le_bom_def r_def)
  have n: "take 2 r \<noteq> [0, 0]"
  proof (cases cs)
    case Nil
    then show ?thesis by (simp add: r_def)
  next
    case (Cons u cs')
    then have "scalar u" "u \<noteq> 0" using assms by simp_all
    then obtain w ws where w: "utf16_char u = w # ws" "w \<noteq> 0"
      using utf16_char_first by blast
    obtain lo hi where l: "le_bytes w = [lo, hi]" "[lo, hi] \<noteq> [0, 0]"
      using le_bytes_nonzero [OF w(2)] by blast
    have "r = lo # hi # concat (map le_bytes (ws @ concat (map utf16_char cs')))"
      by (simp add: r_def Cons w(1) l(1))
    then show ?thesis using l(2) by simp
  qed
  have "take 4 (utf16le_bom cs) \<noteq> [0x00, 0x00, 0xFE, 0xFF]"
    "take 3 (utf16le_bom cs) \<noteq> [0xEF, 0xBB, 0xBF]"
    "take 2 (utf16le_bom cs) \<noteq> [0xFE, 0xFF]"
    "take 2 (utf16le_bom cs) = [0xFF, 0xFE]"
    "drop 2 (utf16le_bom cs) = r"
    by (simp_all add: b)
  moreover have "take 4 (utf16le_bom cs) \<noteq> [0xFF, 0xFE, 0x00, 0x00]"
    using n by (simp add: b)
  ultimately show ?thesis unfolding utfbom_Skip_def r_def by simp
qed

lemma decode_utf16le_bom:
  assumes "\<forall>u \<in> set cs. scalar u" "cs \<noteq> [] \<longrightarrow> hd cs \<noteq> 0"
  shows "decode (utf16le_bom cs) = Inr (utf8 cs)"
proof -
  define us where "us = concat (map utf16_char cs)"
  define r where "r = concat (map le_bytes us)"
  have s: "utfbom_Skip (utf16le_bom cs) = (r, UTF16LittleEndian)"
    using utfbom_Skip_utf16le [OF assms] by (simp add: r_def us_def)
  have lr: "length r = 2 * length us" by (simp add: r_def length_le_bytes)
  have "length (utf16le_bom cs) = 2 + 2 * length us"
    by (simp add: utf16le_bom_def us_def [symmetric] length_le_bytes)
  then have n: "length (utf16le_bom cs) div 2 - Suc 0 = length us" by simp
  have "binary_Read r LittleEndian (length us) = Inr (uint16s LittleEndian r)"
    by (simp add: binary_Read_def lr)
  also have "uint16s LittleEndian r = us" by (simp add: r_def uint16s_le_bytes)
  finally have b: "binary_Read r LittleEndian (length us) = Inr us" .
  have "bytes_of_runes (utf16_Decode us) = utf8 cs"
    using assms(1) by (simp add: us_def utf16_Decode_utf16_char bytes_of_runes_utf8)
  then show ?thesis by (simp add: decode_def s n b)
qed



text \<open>
  A text that begins with U+FEFF is not covered either: its UTF-8 encoding begins with the
  UTF-8 mark, which is skipped, while the UTF-16 path decodes the character and keeps it.
  The bytes handed to the deserializer differ; what it makes of a leading mark is outside
  this file.
\<close>

lemma decode_leading_FEFF_differs:
  "decode (utf16le_bom [0xFEFF, 0x61]) = Inr [0xEF, 0xBB, 0xBF, 0x61]
   \<and> decode (utf8 [0xFEFF, 0x61]) = Inr [0x61]"
proof -
  have a: "utf8 [0xFEFF, 0x61] = [0xEF, 0xBB, 0xBF, 0x61]"
    by (simp add: utf8_def utf8_char_def)
  have "list_all scalar [0xFEFF, 0x61]" by (simp add: scalar_def)
  then have "decode (utf16le_bom [0xFEFF, 0x61]) = Inr (utf8 [0xFEFF, 0x61])"
    by (intro decode_utf16le_bom) (simp_all add: list_all_iff)
  then show ?thesis by (simp add: a decode_def utfbom_Skip_def)
qed



end
